theory Spec2Isabelle
  imports Main "HOL-Library.Word" "HOL-Library.Sublist" "HOL-Library.Multiset"
begin

section \<open>Data model\<close>

text \<open>
  A JavaScript string is a sequence of 16-bit code units. Identifiers, names, timestamps
  and search text of \<^verbatim>\<open>Dashboard.tsx\<close> are all of that type.
\<close>

type_synonym jsstring = "16 word list"

text \<open>An ASCII literal as a JavaScript string, to write concrete inputs readably.\<close>

definition js :: "string \<Rightarrow> jsstring" where
  "js s = map of_char s"

text \<open>
  The types \<^verbatim>\<open>Calendar\<close> and \<^verbatim>\<open>CalendarEvent\<close> are imported from
  \<^verbatim>\<open>../types\<close>; the records below hold the fields that \<^verbatim>\<open>Dashboard.tsx\<close> reads or
  writes. A field that may be absent is an \<open>option\<close>. The field names carry a prefix
  because both types have \<^verbatim>\<open>id\<close> and \<^verbatim>\<open>summary\<close>. \<^verbatim>\<open>primary\<close> is only ever tested for
  truthiness, so an absent flag and \<^verbatim>\<open>false\<close> are the same value \<open>False\<close>.
\<close>

record Calendar =
  cal_id :: jsstring
  cal_summary :: "jsstring option"
  cal_summaryOverride :: "jsstring option"
  cal_backgroundColor :: "jsstring option"
  cal_primary :: bool

record EventStart =
  dateTime :: "jsstring option"
  date :: "jsstring option"

record CalendarEvent =
  ev_id :: jsstring
  ev_summary :: "jsstring option"
  ev_description :: "jsstring option"
  ev_location :: "jsstring option"
  ev_start :: EventStart
  ev_calendarId :: jsstring
  ev_calendarColor :: "jsstring option"

text \<open>
  The toast is a message with a severity. The constructors stand for the five message
  texts of the component; the two deletion messages carry the counts that the source
  formats into the text.
\<close>

datatype Toast =
    SessionExpiredInfo
  | LoadEventsFailedError
  | DeletePartialError int int
  | DeleteSuccess int
  | DeleteFailedError

text \<open>
  The component state: one field for each \<^verbatim>\<open>useState\<close> cell that the handlers below
  touch. A JavaScript \<^verbatim>\<open>Set\<close> iterates in insertion order and holds no duplicates; it is
  a list in insertion order (see \<open>Set_add\<close>). \<open>logoutScheduled\<close> records that
  \<^verbatim>\<open>setTimeout(() => logout(), 2000)\<close> was called.
\<close>

record Dashboard =
  calendars :: "Calendar list"
  selectedCalendarIds :: "jsstring list"
  events :: "CalendarEvent list"
  selectedIds :: "jsstring list"
  loading :: bool
  showDeleteModal :: bool
  deleting :: bool
  toast :: "Toast option"
  timeMin :: jsstring
  timeMax :: "jsstring option"
  searchQuery :: jsstring
  logoutScheduled :: bool

section \<open>Platform functions\<close>

text \<open>
  \<^verbatim>\<open>String.prototype.normalize('NFD')\<close>, \<^verbatim>\<open>toLowerCase\<close> and \<^verbatim>\<open>localeCompare\<close> belong to the
  JavaScript engine, and \<^verbatim>\<open>stripHtml\<close> is imported from \<^verbatim>\<open>../utils/stripHtml\<close>. They are
  parameters of the model: every general theorem below holds for all of them.
\<close>

record Platform =
  nfd :: "jsstring \<Rightarrow> jsstring"
  toLowerCase :: "jsstring \<Rightarrow> jsstring"
  localeCompare :: "jsstring \<Rightarrow> jsstring \<Rightarrow> int"
  stripHtml :: "jsstring \<Rightarrow> jsstring"

text \<open>\<^verbatim>\<open>a || d\<close> for an optional string \<open>a\<close>: absent and empty strings are falsy.\<close>

definition orElse :: "jsstring option \<Rightarrow> jsstring \<Rightarrow> jsstring" where
  "orElse a d = (case a of Some (c # cs) \<Rightarrow> c # cs | _ \<Rightarrow> d)"

definition truthy :: "jsstring option \<Rightarrow> bool" where
  "truthy a = (case a of Some (c # cs) \<Rightarrow> True | _ \<Rightarrow> False)"

text \<open>\<^verbatim>\<open>s.includes(q)\<close>: \<open>q\<close> occurs in \<open>s\<close> as a contiguous run of code units.\<close>

fun isPrefix :: "jsstring \<Rightarrow> jsstring \<Rightarrow> bool" where
  "isPrefix [] s = True"
| "isPrefix (c # q) [] = False"
| "isPrefix (c # q) (d # s) = (c = d \<and> isPrefix q s)"

fun str_includes :: "jsstring \<Rightarrow> jsstring \<Rightarrow> bool" where
  "str_includes [] q = (q = [])"
| "str_includes (c # s) q = (isPrefix q (c # s) \<or> str_includes s q)"

section \<open>JavaScript sets\<close>

text \<open>
  \<^verbatim>\<open>Set.prototype.has\<close>, \<^verbatim>\<open>add\<close>, \<^verbatim>\<open>delete\<close>, \<^verbatim>\<open>size\<close> and \<^verbatim>\<open>new Set(array)\<close> on a list
  without duplicates, in insertion order.
\<close>

definition Set_has :: "'a list \<Rightarrow> 'a \<Rightarrow> bool" where
  "Set_has s x \<longleftrightarrow> x \<in> set s"

definition Set_add :: "'a \<Rightarrow> 'a list \<Rightarrow> 'a list" where
  "Set_add x s = (if x \<in> set s then s else s @ [x])"

definition Set_delete :: "'a \<Rightarrow> 'a list \<Rightarrow> 'a list" where
  "Set_delete x s = filter (\<lambda>y. y \<noteq> x) s"

definition Set_size :: "'a list \<Rightarrow> nat" where
  "Set_size s = length s"

definition new_Set :: "'a list \<Rightarrow> 'a list" where
  "new_Set xs = foldl (\<lambda>s x. Set_add x s) [] xs"

section \<open>Search filter\<close>

text \<open>
  \<^verbatim>\<open>str.normalize('NFD')\<close>, then the removal of every code unit in the range U+0300 to
  U+036F (the regular expression of the source), then \<^verbatim>\<open>toLowerCase()\<close>.
\<close>

definition isCombiningMark :: "16 word \<Rightarrow> bool" where
  "isCombiningMark c \<longleftrightarrow> 0x300 \<le> c \<and> c \<le> 0x36F"

definition normalizeString :: "Platform \<Rightarrow> jsstring \<Rightarrow> jsstring" where
  "normalizeString P str = toLowerCase P (filter (\<lambda>c. \<not> isCombiningMark c) (nfd P str))"

text \<open>The predicate passed to \<^verbatim>\<open>events.filter\<close>, with its three guarded tests in order.\<close>

definition eventMatches :: "Platform \<Rightarrow> jsstring \<Rightarrow> CalendarEvent \<Rightarrow> bool" where
  "eventMatches P normalizedQuery event =
     (if truthy (ev_summary event)
         \<and> str_includes (normalizeString P (orElse (ev_summary event) [])) normalizedQuery
      then True
      else if truthy (ev_description event)
         \<and> str_includes (normalizeString P (stripHtml P (orElse (ev_description event) [])))
              normalizedQuery
      then True
      else if truthy (ev_location event)
         \<and> str_includes (normalizeString P (orElse (ev_location event) [])) normalizedQuery
      then True
      else False)"

definition filterEvents :: "Platform \<Rightarrow> CalendarEvent list \<Rightarrow> jsstring \<Rightarrow> CalendarEvent list" where
  "filterEvents P evs query =
     (if query = [] then evs
      else filter (eventMatches P (normalizeString P query)) evs)"


section \<open>The search filter in the words of the specification\<close>

text \<open>
  A field contains the query when the field is present and non-empty and the normalized
  query is a contiguous sublist of the normalized field; the description is stripped of
  markup first. An event matches when its title, its location or its description does.
\<close>

definition fieldContains :: "Platform \<Rightarrow> jsstring \<Rightarrow> jsstring option \<Rightarrow> bool" where
  "fieldContains P normalizedQuery field =
     (case field of
        Some (c # t) \<Rightarrow> sublist normalizedQuery (normalizeString P (c # t))
      | _ \<Rightarrow> False)"

definition descriptionContains :: "Platform \<Rightarrow> jsstring \<Rightarrow> jsstring option \<Rightarrow> bool" where
  "descriptionContains P normalizedQuery field =
     (case field of
        Some (c # t) \<Rightarrow> sublist normalizedQuery (normalizeString P (stripHtml P (c # t)))
      | _ \<Rightarrow> False)"

definition specMatches :: "Platform \<Rightarrow> jsstring \<Rightarrow> CalendarEvent \<Rightarrow> bool" where
  "specMatches P query e \<longleftrightarrow>
     fieldContains P (normalizeString P query) (ev_summary e) \<or>
     fieldContains P (normalizeString P query) (ev_location e) \<or>
     descriptionContains P (normalizeString P query) (ev_description e)"

text \<open>
  The same without the condition that the field is non-empty: a field that is present
  contains the query when the normalized query is a sublist of the normalized field.
\<close>

definition claimedMatches :: "Platform \<Rightarrow> jsstring \<Rightarrow> CalendarEvent \<Rightarrow> bool" where
  "claimedMatches P query e \<longleftrightarrow>
     (case ev_summary e of
        Some t \<Rightarrow> sublist (normalizeString P query) (normalizeString P t) | None \<Rightarrow> False) \<or>
     (case ev_location e of
        Some t \<Rightarrow> sublist (normalizeString P query) (normalizeString P t) | None \<Rightarrow> False) \<or>
     (case ev_description e of
        Some t \<Rightarrow> sublist (normalizeString P query) (normalizeString P (stripHtml P t))
      | None \<Rightarrow> False)"

section \<open>Handlers that change the search text and the time window\<close>

definition handleSearchChange :: "jsstring \<Rightarrow> Dashboard \<Rightarrow> Dashboard" where
  "handleSearchChange query st = st\<lparr>searchQuery := query\<rparr>"

definition handleDateRangeChange :: "jsstring \<Rightarrow> jsstring option \<Rightarrow> Dashboard \<Rightarrow> Dashboard" where
  "handleDateRangeChange newTimeMin newTimeMax st =
     st\<lparr>timeMin := newTimeMin, timeMax := newTimeMax\<rparr>"

definition handleCalendarToggle :: "jsstring \<Rightarrow> Dashboard \<Rightarrow> Dashboard" where
  "handleCalendarToggle calendarId st =
     st\<lparr>selectedCalendarIds :=
          (if Set_has (selectedCalendarIds st) calendarId
           then Set_delete calendarId (selectedCalendarIds st)
           else Set_add calendarId (selectedCalendarIds st)),
        selectedIds := []\<rparr>"

definition handleToggleEvent :: "jsstring \<Rightarrow> Dashboard \<Rightarrow> Dashboard" where
  "handleToggleEvent eventId st =
     st\<lparr>selectedIds :=
          (if Set_has (selectedIds st) eventId
           then Set_delete eventId (selectedIds st)
           else Set_add eventId (selectedIds st))\<rparr>"

section \<open>Select all\<close>


section \<open>Sorting\<close>

text \<open>
  \<^verbatim>\<open>Array.prototype.sort(compare)\<close> is the engine's. ECMAScript requires it to be stable
  and, when \<open>compare\<close> is a consistent comparator, to return the elements in ascending
  order of \<open>compare\<close>. The stable sorted arrangement of a list is unique, so insertion
  from the right end, placing each element before the first element that is not smaller, is
  the function the engine computes for such a comparator.
\<close>

fun insertBy :: "('a \<Rightarrow> 'a \<Rightarrow> int) \<Rightarrow> 'a \<Rightarrow> 'a list \<Rightarrow> 'a list" where
  "insertBy compare x [] = [x]"
| "insertBy compare x (y # ys) =
     (if compare x y \<le> 0 then x # y # ys else y # insertBy compare x ys)"

fun array_sort :: "('a \<Rightarrow> 'a \<Rightarrow> int) \<Rightarrow> 'a list \<Rightarrow> 'a list" where
  "array_sort compare [] = []"
| "array_sort compare (x # xs) = insertBy compare x (array_sort compare xs)"

text \<open>
  A consistent comparator: the signs of \<open>compare a b\<close> and \<open>compare b a\<close> are opposite,
  and \<open>compare a b \<le> 0\<close> is transitive.
\<close>

definition consistentComparator :: "('a \<Rightarrow> 'a \<Rightarrow> int) \<Rightarrow> bool" where
  "consistentComparator compare \<longleftrightarrow>
     (\<forall>a b. (compare a b < 0) = (compare b a > 0)) \<and>
     (\<forall>a b c. compare a b \<le> 0 \<longrightarrow> compare b c \<le> 0 \<longrightarrow> compare a c \<le> 0)"

text \<open>The comparator of \<^verbatim>\<open>loadCalendars\<close>.\<close>

definition displayName :: "Calendar \<Rightarrow> jsstring" where
  "displayName c = orElse (cal_summaryOverride c) (orElse (cal_summary c) [])"

definition calendarCompare :: "Platform \<Rightarrow> Calendar \<Rightarrow> Calendar \<Rightarrow> int" where
  "calendarCompare P a b =
     (if cal_primary a \<and> \<not> cal_primary b then - 1
      else if \<not> cal_primary a \<and> cal_primary b then 1
      else localeCompare P (displayName a) (displayName b))"

text \<open>The comparator of \<^verbatim>\<open>loadEvents\<close>.\<close>

definition startKey :: "CalendarEvent \<Rightarrow> jsstring" where
  "startKey e = orElse (dateTime (ev_start e)) (orElse (date (ev_start e)) [])"

definition eventCompare :: "Platform \<Rightarrow> CalendarEvent \<Rightarrow> CalendarEvent \<Rightarrow> int" where
  "eventCompare P a b = localeCompare P (startKey a) (startKey b)"


section \<open>Start times\<close>

text \<open>
  The provider writes an all-day start as a date, \<^verbatim>\<open>yyyy-mm-dd\<close>, and a timed start as that
  date, the letter T, the time of day in fixed-width fields, and a UTC offset. The shape of
  a string is the string with every digit replaced by the digit zero.
\<close>

definition isDigit :: "16 word \<Rightarrow> bool" where
  "isDigit c \<longleftrightarrow> 0x30 \<le> c \<and> c \<le> 0x39"

definition isoChar :: "16 word \<Rightarrow> bool" where
  "isoChar c \<longleftrightarrow> isDigit c \<or> c \<in> set (js ''-:TZ+.'')"

definition shape :: "jsstring \<Rightarrow> jsstring" where
  "shape s = map (\<lambda>c. if isDigit c then 0x30 else c) s"

text \<open>The number that a string of decimal digits writes.\<close>

fun decimal :: "jsstring \<Rightarrow> nat" where
  "decimal [] = 0"
| "decimal (c # cs) = (unat c - 48) * 10 ^ length cs + decimal cs"

definition datePart :: "jsstring \<Rightarrow> jsstring" where
  "datePart k = take 10 k"

definition timePart :: "jsstring \<Rightarrow> jsstring \<Rightarrow> jsstring" where
  "timePart offset k = take (length k - 11 - length offset) (drop 11 k)"

text \<open>
  A start key is well formed, for a shape of the time of day and an offset, when it is a
  date, or a date followed by T, a time of day of that shape, and that offset.
\<close>

definition wellFormedStart :: "jsstring \<Rightarrow> jsstring \<Rightarrow> jsstring \<Rightarrow> bool" where
  "wellFormedStart timeShape offset k \<longleftrightarrow>
     shape (datePart k) = js ''0000-00-00'' \<and>
     (k = datePart k \<or>
      (k = datePart k @ [0x54] @ timePart offset k @ offset \<and>
       shape (timePart offset k) = timeShape))"

text \<open>
  The start time of a well-formed key: the date as the number \<open>yyyymmdd\<close>, and the time
  of day as the number that its digits write (\<open>hhmmss\<close> for \<^verbatim>\<open>hh:mm:ss\<close>), or \<open>None\<close> for
  an all-day start. Among starts that carry the same offset, an earlier start has the
  smaller date, or the same date and the smaller time of day; an all-day start is placed
  before every timed start of its date.
\<close>

definition startInstant :: "jsstring \<Rightarrow> jsstring \<Rightarrow> nat \<times> nat option" where
  "startInstant offset k =
     (decimal (filter isDigit (datePart k)),
      if length k \<le> 10 then None
      else Some (decimal (filter isDigit (timePart offset k))))"

fun instantLe :: "nat \<times> nat option \<Rightarrow> nat \<times> nat option \<Rightarrow> bool" where
  "instantLe (d1, t1) (d2, t2) \<longleftrightarrow>
     d1 < d2 \<or>
     (d1 = d2 \<and>
      (case t1 of
         None \<Rightarrow> True
       | Some a \<Rightarrow> (case t2 of None \<Rightarrow> False | Some b \<Rightarrow> a \<le> b)))"

text \<open>
  What the sort needs of \<^verbatim>\<open>localeCompare\<close> on strings of digits and the punctuation of
  dates and timestamps: a string comes before each of its extensions, and of two strings
  that first differ in a digit the one with the smaller digit comes first.
\<close>

definition isoOrdered :: "(jsstring \<Rightarrow> jsstring \<Rightarrow> int) \<Rightarrow> bool" where
  "isoOrdered compare \<longleftrightarrow>
     (\<forall>p c s. list_all isoChar (p @ c # s) \<longrightarrow> compare p (p @ c # s) < 0) \<and>
     (\<forall>p c d s t. list_all isoChar (p @ c # s) \<longrightarrow> list_all isoChar (p @ d # t) \<longrightarrow>
        isDigit c \<longrightarrow> isDigit d \<longrightarrow> c < d \<longrightarrow> compare (p @ c # s) (p @ d # t) < 0)"

section \<open>The calendar service\<close>

text \<open>
  \<^verbatim>\<open>api\<close> and \<^verbatim>\<open>AuthError\<close> are imported from \<^verbatim>\<open>../services/api\<close>. A call either returns
  or throws; what it returns may depend on everything that happened before, so every call
  takes the state \<open>'w\<close> of the outside world and returns the next one.
\<close>

datatype AuthCode = TOKEN_EXPIRED | OTHER_CODE

datatype ApiError = AuthError AuthCode | OtherError

record DeleteResult =
  succeeded :: int
  failed :: int

record 'w Api =
  getEvents :: "'w \<Rightarrow> jsstring \<Rightarrow> nat \<Rightarrow> jsstring \<Rightarrow> jsstring option
                  \<Rightarrow> (ApiError + CalendarEvent list) \<times> 'w"
  deleteEvents :: "'w \<Rightarrow> jsstring \<Rightarrow> jsstring list \<Rightarrow> (ApiError + DeleteResult) \<times> 'w"

text \<open>\<^verbatim>\<open>error instanceof AuthError && error.code === 'TOKEN_EXPIRED'\<close>\<close>

fun isTokenExpired :: "ApiError \<Rightarrow> bool" where
  "isTokenExpired (AuthError TOKEN_EXPIRED) = True"
| "isTokenExpired _ = False"

section \<open>Loading calendars and events\<close>

definition loadCalendars :: "Platform \<Rightarrow> (ApiError + Calendar list) \<Rightarrow> Dashboard \<Rightarrow> Dashboard" where
  "loadCalendars P response st =
     (case response of
        Inr fetchedCalendars \<Rightarrow>
          (let sortedCalendars = array_sort (calendarCompare P) fetchedCalendars;
               st1 = st\<lparr>calendars := sortedCalendars\<rparr>
           in case find cal_primary sortedCalendars of
                Some primaryCal \<Rightarrow> st1\<lparr>selectedCalendarIds := [cal_id primaryCal]\<rparr>
              | None \<Rightarrow>
                  (case sortedCalendars of
                     c # _ \<Rightarrow> st1\<lparr>selectedCalendarIds := [cal_id c]\<rparr>
                   | [] \<Rightarrow> st1))
      | Inl error \<Rightarrow>
          (if isTokenExpired error
           then st\<lparr>toast := Some SessionExpiredInfo, logoutScheduled := True\<rparr>
           else st))"

definition tagEvent :: "Calendar list \<Rightarrow> jsstring \<Rightarrow> CalendarEvent \<Rightarrow> CalendarEvent" where
  "tagEvent cals calendarId event =
     event\<lparr>ev_calendarId := calendarId,
           ev_calendarColor :=
             (case find (\<lambda>c. cal_id c = calendarId) cals of
                Some calendar \<Rightarrow> cal_backgroundColor calendar
              | None \<Rightarrow> None)\<rparr>"

text \<open>
  The \<^verbatim>\<open>for\<close> loop of \<^verbatim>\<open>loadEvents\<close> over the selected calendars; \<open>allEvents\<close> is the array
  that the loop pushes to. The first call that throws ends the loop.
\<close>

fun fetchLoop :: "'w Api \<Rightarrow> Dashboard \<Rightarrow> 'w \<Rightarrow> jsstring list \<Rightarrow> CalendarEvent list
                    \<Rightarrow> (ApiError + CalendarEvent list) \<times> 'w" where
  "fetchLoop api st w [] allEvents = (Inr allEvents, w)"
| "fetchLoop api st w (calendarId # rest) allEvents =
     (case getEvents api w calendarId 100 (timeMin st)
             (if truthy (timeMax st) then timeMax st else None) of
        (Inl error, w') \<Rightarrow> (Inl error, w')
      | (Inr fetchedEvents, w') \<Rightarrow>
          fetchLoop api st w' rest
            (allEvents @ map (tagEvent (calendars st) calendarId) fetchedEvents))"

text \<open>
  What the calendars returned: the events of each \<^verbatim>\<open>getEvents\<close> call that returned, with
  the calendar it was made for, in the order of the calls.
\<close>

fun fetchResults :: "'w Api \<Rightarrow> Dashboard \<Rightarrow> 'w \<Rightarrow> jsstring list
                       \<Rightarrow> (jsstring \<times> CalendarEvent list) list" where
  "fetchResults api st w [] = []"
| "fetchResults api st w (calendarId # rest) =
     (case getEvents api w calendarId 100 (timeMin st)
             (if truthy (timeMax st) then timeMax st else None) of
        (Inl error, w') \<Rightarrow> []
      | (Inr fetchedEvents, w') \<Rightarrow> (calendarId, fetchedEvents) # fetchResults api st w' rest)"

definition tagAll :: "Calendar list \<Rightarrow> (jsstring \<times> CalendarEvent list) list \<Rightarrow> CalendarEvent list" where
  "tagAll cals results =
     concat (map (\<lambda>(calendarId, fetchedEvents). map (tagEvent cals calendarId) fetchedEvents)
               results)"

definition loadEvents :: "'w Api \<Rightarrow> Platform \<Rightarrow> 'w \<Rightarrow> Dashboard \<Rightarrow> Dashboard \<times> 'w" where
  "loadEvents api P w st =
     (if Set_size (selectedCalendarIds st) = 0
      then (st\<lparr>events := [], loading := False\<rparr>, w)
      else
        (case fetchLoop api st w (selectedCalendarIds st) [] of
           (Inr allEvents, w') \<Rightarrow>
             (st\<lparr>events := array_sort (eventCompare P) allEvents, loading := False\<rparr>, w')
         | (Inl error, w') \<Rightarrow>
             (if isTokenExpired error
              then (st\<lparr>toast := Some SessionExpiredInfo, logoutScheduled := True,
                       loading := False\<rparr>, w')
              else (st\<lparr>toast := Some LoadEventsFailedError, loading := False\<rparr>, w'))))"

text \<open>
  The effect that depends on \<^verbatim>\<open>[selectedCalendarIds, timeMin, timeMax, calendars]\<close>.
\<close>

definition reloadEffect :: "'w Api \<Rightarrow> Platform \<Rightarrow> 'w \<Rightarrow> Dashboard \<Rightarrow> Dashboard \<times> 'w" where
  "reloadEffect api P w st =
     (if Set_size (selectedCalendarIds st) > 0 \<and> length (calendars st) > 0
      then loadEvents api P w st
      else if length (calendars st) > 0 then (st\<lparr>events := []\<rparr>, w)
      else (st, w))"

text \<open>
  A change of the time window as a whole: the handler, then the effect when one of the two
  bounds has a new value.
\<close>

definition changeTimeWindow ::
  "'w Api \<Rightarrow> Platform \<Rightarrow> 'w \<Rightarrow> jsstring \<Rightarrow> jsstring option \<Rightarrow> Dashboard \<Rightarrow> Dashboard \<times> 'w" where
  "changeTimeWindow api P w newTimeMin newTimeMax st =
     (let st' = handleDateRangeChange newTimeMin newTimeMax st
      in if timeMin st' = timeMin st \<and> timeMax st' = timeMax st then (st', w)
         else reloadEffect api P w st')"

section \<open>Deletion\<close>

text \<open>
  A JavaScript \<^verbatim>\<open>Map\<close> iterates in the order in which its keys were first set; setting an
  existing key keeps its place.
\<close>

fun Map_get :: "('k \<times> 'v) list \<Rightarrow> 'k \<Rightarrow> 'v option" where
  "Map_get [] k = None"
| "Map_get ((k', v) # m) k = (if k' = k then Some v else Map_get m k)"

fun Map_set :: "'k \<Rightarrow> 'v \<Rightarrow> ('k \<times> 'v) list \<Rightarrow> ('k \<times> 'v) list" where
  "Map_set k v [] = [(k, v)]"
| "Map_set k v ((k', v') # m) = (if k' = k then (k, v) # m else (k', v') # Map_set k v m)"

text \<open>The first loop of \<^verbatim>\<open>handleDelete\<close>: group the selected ids by calendar.\<close>

fun groupByCalendar :: "CalendarEvent list \<Rightarrow> jsstring list \<Rightarrow> (jsstring \<times> jsstring list) list
                          \<Rightarrow> (jsstring \<times> jsstring list) list" where
  "groupByCalendar evs [] eventsByCalendar = eventsByCalendar"
| "groupByCalendar evs (eventId # rest) eventsByCalendar =
     (case find (\<lambda>e. ev_id e = eventId) evs of
        Some event \<Rightarrow>
          groupByCalendar evs rest
            (Map_set (ev_calendarId event)
               ((case Map_get eventsByCalendar (ev_calendarId event) of
                   Some list \<Rightarrow> list | None \<Rightarrow> []) @ [eventId])
               eventsByCalendar)
      | None \<Rightarrow> groupByCalendar evs rest eventsByCalendar)"

text \<open>
  The second loop: one \<^verbatim>\<open>deleteEvents\<close> call for each entry of the map, in order. The third
  component of the result lists the calls that were made, each with its response; a call
  that throws ends the loop.
\<close>

type_synonym DeleteCall = "jsstring \<times> jsstring list \<times> (ApiError + DeleteResult)"

fun deleteLoop :: "'w Api \<Rightarrow> 'w \<Rightarrow> (jsstring \<times> jsstring list) list \<Rightarrow> int \<Rightarrow> int
                     \<Rightarrow> (ApiError + int \<times> int) \<times> 'w \<times> DeleteCall list" where
  "deleteLoop api w [] totalSucceeded totalFailed = (Inr (totalSucceeded, totalFailed), w, [])"
| "deleteLoop api w ((calendarId, eventIds) # rest) totalSucceeded totalFailed =
     (case deleteEvents api w calendarId eventIds of
        (Inl error, w') \<Rightarrow> (Inl error, w', [(calendarId, eventIds, Inl error)])
      | (Inr result, w') \<Rightarrow>
          (case deleteLoop api w' rest (totalSucceeded + succeeded result)
                  (totalFailed + failed result) of
             (outcome, w'', calls) \<Rightarrow>
               (outcome, w'', (calendarId, eventIds, Inr result) # calls)))"

text \<open>The state after the last \<^verbatim>\<open>deleteEvents\<close> call returned, before the reload.\<close>

definition afterDeletes :: "Dashboard \<Rightarrow> int \<Rightarrow> int \<Rightarrow> Dashboard" where
  "afterDeletes st totalSucceeded totalFailed =
     st\<lparr>deleting := True,
        toast := Some (if totalFailed > 0 then DeletePartialError totalSucceeded totalFailed
                       else DeleteSuccess totalSucceeded),
        selectedIds := [],
        showDeleteModal := False\<rparr>"

definition handleDelete ::
  "'w Api \<Rightarrow> Platform \<Rightarrow> 'w \<Rightarrow> Dashboard \<Rightarrow> Dashboard \<times> 'w \<times> DeleteCall list" where
  "handleDelete api P w st =
     (case deleteLoop api w (groupByCalendar (events st) (selectedIds st) []) 0 0 of
        (Inr (totalSucceeded, totalFailed), w', calls) \<Rightarrow>
          (case loadEvents api P w' (afterDeletes st totalSucceeded totalFailed) of
             (st', w'') \<Rightarrow> (st'\<lparr>deleting := False\<rparr>, w'', calls))
      | (Inl error, w', calls) \<Rightarrow>
          (if isTokenExpired error
           then (st\<lparr>toast := Some SessionExpiredInfo, logoutScheduled := True,
                    deleting := False\<rparr>, w', calls)
           else (st\<lparr>toast := Some DeleteFailedError, deleting := False\<rparr>, w', calls)))"

section \<open>A concrete platform\<close>

text \<open>
  Closed instances need concrete functions. The ones below agree with the engine's on the
  strings they are applied to in this theory: text of Basic Latin and Latin-1 letters, and
  ISO 8601 dates and timestamps.
\<close>

text \<open>
  The canonical decompositions of the Latin-1 Supplement (U+00C0 to U+00FF): base letter
  and combining mark. Every other code unit below U+0100, and a combining mark itself,
  decomposes to itself.
\<close>

definition latin1Decomposition :: "(16 word \<times> 16 word \<times> 16 word) list" where
  "latin1Decomposition =
     [(0xC0, 0x41, 0x300), (0xC1, 0x41, 0x301), (0xC2, 0x41, 0x302), (0xC3, 0x41, 0x303),
      (0xC4, 0x41, 0x308), (0xC5, 0x41, 0x30A), (0xC7, 0x43, 0x327),
      (0xC8, 0x45, 0x300), (0xC9, 0x45, 0x301), (0xCA, 0x45, 0x302), (0xCB, 0x45, 0x308),
      (0xCC, 0x49, 0x300), (0xCD, 0x49, 0x301), (0xCE, 0x49, 0x302), (0xCF, 0x49, 0x308),
      (0xD1, 0x4E, 0x303),
      (0xD2, 0x4F, 0x300), (0xD3, 0x4F, 0x301), (0xD4, 0x4F, 0x302), (0xD5, 0x4F, 0x303),
      (0xD6, 0x4F, 0x308),
      (0xD9, 0x55, 0x300), (0xDA, 0x55, 0x301), (0xDB, 0x55, 0x302), (0xDC, 0x55, 0x308),
      (0xDD, 0x59, 0x301),
      (0xE0, 0x61, 0x300), (0xE1, 0x61, 0x301), (0xE2, 0x61, 0x302), (0xE3, 0x61, 0x303),
      (0xE4, 0x61, 0x308), (0xE5, 0x61, 0x30A), (0xE7, 0x63, 0x327),
      (0xE8, 0x65, 0x300), (0xE9, 0x65, 0x301), (0xEA, 0x65, 0x302), (0xEB, 0x65, 0x308),
      (0xEC, 0x69, 0x300), (0xED, 0x69, 0x301), (0xEE, 0x69, 0x302), (0xEF, 0x69, 0x308),
      (0xF1, 0x6E, 0x303),
      (0xF2, 0x6F, 0x300), (0xF3, 0x6F, 0x301), (0xF4, 0x6F, 0x302), (0xF5, 0x6F, 0x303),
      (0xF6, 0x6F, 0x308),
      (0xF9, 0x75, 0x300), (0xFA, 0x75, 0x301), (0xFB, 0x75, 0x302), (0xFC, 0x75, 0x308),
      (0xFD, 0x79, 0x301), (0xFF, 0x79, 0x308)]"

definition nfdLatin1 :: "jsstring \<Rightarrow> jsstring" where
  "nfdLatin1 s =
     concat (map (\<lambda>c. case map_of latin1Decomposition c of
                         Some (base, mark) \<Rightarrow> [base, mark]
                       | None \<Rightarrow> [c]) s)"

definition toLowerCaseLatin1 :: "jsstring \<Rightarrow> jsstring" where
  "toLowerCaseLatin1 s =
     map (\<lambda>c. if (0x41 \<le> c \<and> c \<le> 0x5A) \<or> (0xC0 \<le> c \<and> c \<le> 0xDE \<and> c \<noteq> 0xD7)
               then c + 0x20 else c) s"

text \<open>
  Comparison by code units, the shorter string first when it is a prefix of the other. On
  two ISO 8601 strings of which one is a prefix of the other, or which first differ in a
  digit, and on two words of lower-case Basic Latin letters, \<^verbatim>\<open>localeCompare\<close> has the
  same sign.
\<close>

fun compareCodeUnits :: "jsstring \<Rightarrow> jsstring \<Rightarrow> int" where
  "compareCodeUnits [] [] = 0"
| "compareCodeUnits [] (d # t) = - 1"
| "compareCodeUnits (c # s) [] = 1"
| "compareCodeUnits (c # s) (d # t) =
     (if c < d then - 1 else if d < c then 1 else compareCodeUnits s t)"

text \<open>
  Modelled from the spec: \<^verbatim>\<open>stripHtml\<close> of \<^verbatim>\<open>../utils/stripHtml\<close>, which is not among the
  sources. The spec asks for a plain-text rendering with any markup stripped; this one
  drops every tag, from \<^verbatim>\<open><\<close> to the next \<^verbatim>\<open>>\<close>.
\<close>

fun stripTags :: "bool \<Rightarrow> jsstring \<Rightarrow> jsstring" where
  "stripTags inTag [] = []"
| "stripTags inTag (c # s) =
     (if inTag then (if c = 0x3E then stripTags False s else stripTags True s)
      else if c = 0x3C then stripTags True s
      else c # stripTags False s)"

definition latin1Platform :: Platform where
  "latin1Platform =
     \<lparr>nfd = nfdLatin1, toLowerCase = toLowerCaseLatin1,
      localeCompare = compareCodeUnits, stripHtml = stripTags False\<rparr>"

text \<open>Reading a logged call: the batch that was sent and the counts that came back.\<close>

definition callBatch :: "DeleteCall \<Rightarrow> jsstring \<times> jsstring list" where
  "callBatch call = (case call of (calendarId, eventIds, response) \<Rightarrow> (calendarId, eventIds))"

definition callSucceeded :: "DeleteCall \<Rightarrow> int" where
  "callSucceeded call =
     (case call of (calendarId, eventIds, Inr result) \<Rightarrow> succeeded result | _ \<Rightarrow> 0)"

definition callFailed :: "DeleteCall \<Rightarrow> int" where
  "callFailed call =
     (case call of (calendarId, eventIds, Inr result) \<Rightarrow> failed result | _ \<Rightarrow> 0)"

definition callReturned :: "DeleteCall \<Rightarrow> bool" where
  "callReturned call = (case call of (calendarId, eventIds, Inr result) \<Rightarrow> True | _ \<Rightarrow> False)"

text \<open>An id is resolvable when \<^verbatim>\<open>events.find(e => e.id === eventId)\<close> finds an event.\<close>

definition resolvable :: "CalendarEvent list \<Rightarrow> jsstring \<Rightarrow> bool" where
  "resolvable evs eventId \<longleftrightarrow> find (\<lambda>e. ev_id e = eventId) evs \<noteq> None"

text \<open>
  The calendar of the first event of the list that bears the id, and what it means for a
  batch to hold only ids of its own calendar.
\<close>

definition ownerOf :: "CalendarEvent list \<Rightarrow> jsstring \<Rightarrow> jsstring option" where
  "ownerOf evs eventId = map_option ev_calendarId (find (\<lambda>e. ev_id e = eventId) evs)"

fun batchOwned :: "CalendarEvent list \<Rightarrow> jsstring \<times> jsstring list \<Rightarrow> bool" where
  "batchOwned evs (calendarId, eventIds) \<longleftrightarrow>
     eventIds \<noteq> [] \<and> (\<forall>i \<in> set eventIds. ownerOf evs i = Some calendarId)"

section \<open>A calendar service for concrete runs\<close>

text \<open>
  A small server to run the handlers against: it stores events with their calendar, refuses
  to delete the ids it protects, and rejects every call with \<^verbatim>\<open>TOKEN_EXPIRED\<close> once
  \<open>callsLeft\<close> calls have been served. Each id of a batch is attempted on its own.
\<close>

record Server =
  stored :: "CalendarEvent list"
  protected :: "jsstring list"
  callsLeft :: nat

definition deletable :: "Server \<Rightarrow> jsstring \<Rightarrow> jsstring \<Rightarrow> bool" where
  "deletable w calendarId eventId \<longleftrightarrow>
     eventId \<in> set (map ev_id (filter (\<lambda>e. ev_calendarId e = calendarId) (stored w)))
     \<and> eventId \<notin> set (protected w)"

definition testApi :: "Server Api" where
  "testApi =
     \<lparr>getEvents = (\<lambda>w calendarId maxResults tMin tMax.
        if callsLeft w = 0 then (Inl (AuthError TOKEN_EXPIRED), w)
        else (Inr (take maxResults (filter (\<lambda>e. ev_calendarId e = calendarId) (stored w))),
              w\<lparr>callsLeft := callsLeft w - 1\<rparr>)),
      deleteEvents = (\<lambda>w calendarId eventIds.
        if callsLeft w = 0 then (Inl (AuthError TOKEN_EXPIRED), w)
        else
          (let removed = filter (deletable w calendarId) eventIds
           in (Inr \<lparr>succeeded = int (length removed),
                    failed = int (length eventIds) - int (length removed)\<rparr>,
               w\<lparr>stored := filter (\<lambda>e. \<not> (ev_calendarId e = calendarId \<and> ev_id e \<in> set removed))
                               (stored w),
                 callsLeft := callsLeft w - 1\<rparr>)))\<rparr>"

text \<open>Concrete events, calendars and component states.\<close>

definition timedEvent :: "string \<Rightarrow> string \<Rightarrow> string \<Rightarrow> string \<Rightarrow> CalendarEvent" where
  "timedEvent i title start calendarId =
     \<lparr>ev_id = js i, ev_summary = Some (js title), ev_description = None, ev_location = None,
      ev_start = \<lparr>dateTime = Some (js start), date = None\<rparr>, ev_calendarId = js calendarId,
      ev_calendarColor = None\<rparr>"


definition calendar :: "string \<Rightarrow> string \<Rightarrow> bool \<Rightarrow> Calendar" where
  "calendar i name isPrimary =
     \<lparr>cal_id = js i, cal_summary = Some (js name), cal_summaryOverride = None,
      cal_backgroundColor = None, cal_primary = isPrimary\<rparr>"

definition dashboard :: "CalendarEvent list \<Rightarrow> string list \<Rightarrow> string \<Rightarrow> Dashboard" where
  "dashboard evs selection query =
     \<lparr>calendars = [calendar ''work'' ''work'' True, calendar ''home'' ''home'' False],
      selectedCalendarIds = [js ''work'', js ''home''],
      events = evs, selectedIds = map js selection, loading = False, showDeleteModal = False,
      deleting = False, toast = None, timeMin = js ''2025-06-01'', timeMax = None,
      searchQuery = js query, logoutScheduled = False\<rparr>"

definition lunch :: CalendarEvent where
  "lunch = timedEvent ''x'' ''lunch'' ''2025-06-01T12:00'' ''work''"

definition dinner :: CalendarEvent where
  "dinner = timedEvent ''y'' ''dinner'' ''2025-06-01T19:00'' ''home''"

definition review :: CalendarEvent where
  "review = timedEvent ''z'' ''review'' ''2025-06-02T10:00'' ''work''"

definition training :: CalendarEvent where
  "training = timedEvent ''t'' ''training'' ''2025-06-03T18:00'' ''club''"

text \<open>An event titled C, e with acute, s, a, r; and an event whose title is the empty string.\<close>

definition cesarEvent :: CalendarEvent where
  "cesarEvent = (timedEvent ''c'' [] ''2025-06-01T12:00'' ''work'')
     \<lparr>ev_summary := Some [0x43, 0xE9, 0x73, 0x61, 0x72]\<rparr>"

definition blankEvent :: CalendarEvent where
  "blankEvent = timedEvent ''b'' [] ''2025-06-01T12:00'' ''work''"






definition fetchedCalendars :: "Calendar list" where
  "fetchedCalendars =
     [calendar ''home'' ''home'' False,
      calendar ''work'' ''work'' True,
      (calendar ''club'' ''zumba'' False)\<lparr>cal_summaryOverride := Some (js ''club'')\<rparr>,
      (calendar ''n'' [] False)\<lparr>cal_summary := None\<rparr>]"

definition stThree :: Dashboard where
  "stThree = dashboard [lunch, dinner, training] [''x'', ''gone'', ''y'', ''t''] []"

definition srvExpiring :: Server where
  "srvExpiring = \<lparr>stored = [lunch, dinner, training], protected = [], callsLeft = 1\<rparr>"

definition stPartial :: Dashboard where
  "stPartial = dashboard [lunch, review, dinner] [''x'', ''z'', ''y''] []"

definition srvPartial :: Server where
  "srvPartial = \<lparr>stored = [lunch, review, dinner], protected = [js ''z''], callsLeft = 10\<rparr>"

section \<open>Properties of the model\<close>

subsection \<open>Sets\<close>


lemma distinct_new_Set_aux: "distinct acc \<Longrightarrow> distinct (foldl (\<lambda>s x. Set_add x s) acc xs)"
  by (induction xs arbitrary: acc) (auto simp: Set_add_def)


lemma distinct_new_Set: "distinct (new_Set xs)"
  by (simp add: new_Set_def distinct_new_Set_aux)

subsection \<open>What clears the selection and what does not\<close>

lemma calendar_toggle_clears_selection:
  "selectedIds (handleCalendarToggle calendarId st) = []"
  by (simp add: handleCalendarToggle_def)

lemma loadEvents_selectedIds: "selectedIds (fst (loadEvents api P w st)) = selectedIds st"
  by (simp add: loadEvents_def split: prod.splits sum.splits)

lemma reloadEffect_selectedIds: "selectedIds (fst (reloadEffect api P w st)) = selectedIds st"
  by (simp add: reloadEffect_def loadEvents_selectedIds)

subsection \<open>The deletion loop\<close>

lemma deleteLoop_returned:
  "deleteLoop api w batches s f = (Inr (s', f'), w', calls) \<Longrightarrow>
     map callBatch calls = batches \<and> list_all callReturned calls \<and>
     s' = s + sum_list (map callSucceeded calls) \<and>
     f' = f + sum_list (map callFailed calls)"
proof (induction batches arbitrary: w s f calls)
  case Nil
  then show ?case by simp
next
  case (Cons b batches)
  obtain c ids where b: "b = (c, ids)" by (cases b)
  from Cons.prems b obtain result w1 where
    call: "deleteEvents api w c ids = (Inr result, w1)"
    by (auto split: prod.splits sum.splits)
  from Cons.prems b call obtain calls1 where
    rest: "deleteLoop api w1 batches (s + succeeded result) (f + failed result)
             = (Inr (s', f'), w', calls1)"
    and calls: "calls = (c, ids, Inr result) # calls1"
    by (auto split: prod.splits)
  from Cons.IH[OF rest] show ?case
    by (simp add: calls b callBatch_def callReturned_def callSucceeded_def callFailed_def)
qed

lemma deleteLoop_threw:
  "deleteLoop api w batches s f = (Inl error, w', calls) \<Longrightarrow>
     calls \<noteq> [] \<and> snd (snd (last calls)) = Inl error \<and>
     list_all callReturned (butlast calls) \<and>
     map callBatch calls = take (length calls) batches"
proof (induction batches arbitrary: w s f calls)
  case Nil
  then show ?case by simp
next
  case (Cons b batches)
  obtain c ids where b: "b = (c, ids)" by (cases b)
  show ?case
  proof (cases "deleteEvents api w c ids")
    case (Pair response w1)
    show ?thesis
    proof (cases response)
      case (Inl e)
      with Cons.prems b Pair have "calls = [(c, ids, Inl error)]"
        by auto
      then show ?thesis by (simp add: b callBatch_def)
    next
      case (Inr result)
      with Cons.prems b Pair obtain calls1 where
        rest: "deleteLoop api w1 batches (s + succeeded result) (f + failed result)
                 = (Inl error, w', calls1)"
        and calls: "calls = (c, ids, Inr result) # calls1"
        by (auto split: prod.splits)
      from Cons.IH[OF rest] show ?thesis
        by (simp add: calls b callBatch_def callReturned_def)
    qed
  qed
qed

lemma handleDelete_threw:
  assumes "deleteLoop api w (groupByCalendar (events st) (selectedIds st) []) 0 0
             = (Inl error, w1, calls)"
  shows "snd (snd (handleDelete api P w st)) = calls"
    and "selectedIds (fst (handleDelete api P w st)) = selectedIds st"
  using assms by (simp_all add: handleDelete_def)

lemma handleDelete_returned:
  assumes "deleteLoop api w (groupByCalendar (events st) (selectedIds st) []) 0 0
             = (Inr (S, F), w1, calls)"
  shows "handleDelete api P w st =
           ((fst (loadEvents api P w1 (afterDeletes st S F)))\<lparr>deleting := False\<rparr>,
            snd (loadEvents api P w1 (afterDeletes st S F)), calls)"
  using assms by (simp add: handleDelete_def split: prod.splits)

subsection \<open>Grouping the selection by calendar\<close>

lemma resolvable_iff: "resolvable evs i \<longleftrightarrow> i \<in> ev_id ` set evs"
  by (auto simp: resolvable_def find_None_iff)

lemma Map_get_Some: "Map_get m k = Some v \<Longrightarrow> (k, v) \<in> set m"
  by (induction m k rule: Map_get.induct) (auto split: if_splits)

lemma Map_set_keys:
  "map fst (Map_set k v m) = (if k \<in> fst ` set m then map fst m else map fst m @ [k])"
  by (induction k v m rule: Map_set.induct) auto

lemma Map_set_entries: "set (Map_set k v m) \<subseteq> insert (k, v) (set m)"
  by (induction k v m rule: Map_set.induct) auto

lemma Map_set_push_mset:
  "mset (concat (map snd (Map_set k ((case Map_get m k of Some l \<Rightarrow> l | None \<Rightarrow> []) @ [i]) m)))
     = mset (concat (map snd m)) + {#i#}"
  by (induction m k rule: Map_get.induct) auto

lemma groupByCalendar_mset:
  "mset (concat (map snd (groupByCalendar evs sel m)))
     = mset (concat (map snd m)) + mset (filter (resolvable evs) sel)"
proof (induction sel arbitrary: m)
  case Nil
  then show ?case by simp
next
  case (Cons i sel)
  show ?case
  proof (cases "find (\<lambda>e. ev_id e = i) evs")
    case None
    then show ?thesis using Cons.IH by (simp add: resolvable_def)
  next
    case (Some e)
    then show ?thesis
      using Cons.IH by (simp add: resolvable_def Map_set_push_mset)
  qed
qed

lemma groupByCalendar_keys:
  "distinct (map fst m) \<Longrightarrow> distinct (map fst (groupByCalendar evs sel m))"
proof (induction sel arbitrary: m)
  case Nil
  then show ?case by simp
next
  case (Cons i sel)
  show ?case
  proof (cases "find (\<lambda>e. ev_id e = i) evs")
    case None
    then show ?thesis using Cons by simp
  next
    case (Some e)
    let ?m' = "Map_set (ev_calendarId e)
       ((case Map_get m (ev_calendarId e) of Some l \<Rightarrow> l | None \<Rightarrow> []) @ [i]) m"
    have "distinct (map fst ?m')"
      using Cons.prems by (auto simp: Map_set_keys)
    from Cons.IH[OF this] Some show ?thesis by simp
  qed
qed

lemma groupByCalendar_owned:
  "list_all (batchOwned evs) m \<Longrightarrow> list_all (batchOwned evs) (groupByCalendar evs sel m)"
proof (induction sel arbitrary: m)
  case Nil
  then show ?case by simp
next
  case (Cons i sel)
  show ?case
  proof (cases "find (\<lambda>e. ev_id e = i) evs")
    case None
    then show ?thesis using Cons by simp
  next
    case (Some e)
    let ?old = "case Map_get m (ev_calendarId e) of Some l \<Rightarrow> l | None \<Rightarrow> []"
    let ?m' = "Map_set (ev_calendarId e) (?old @ [i]) m"
    have old: "\<forall>j \<in> set ?old. ownerOf evs j = Some (ev_calendarId e)"
    proof (cases "Map_get m (ev_calendarId e)")
      case None
      then show ?thesis by simp
    next
      case (Some l)
      from Map_get_Some[OF this] Cons.prems have "batchOwned evs (ev_calendarId e, l)"
        by (auto simp: list_all_iff)
      with Some show ?thesis by simp
    qed
    have new: "batchOwned evs (ev_calendarId e, ?old @ [i])"
      using old Some by (auto simp: ownerOf_def)
    have "list_all (batchOwned evs) ?m'"
      using Map_set_entries[of "ev_calendarId e" "?old @ [i]" m] new Cons.prems
      by (auto simp: list_all_iff)
    from Cons.IH[OF this] Some show ?thesis by simp
  qed
qed

lemma groupByCalendar_drops_unresolvable:
  "groupByCalendar evs sel m = groupByCalendar evs (filter (resolvable evs) sel) m"
  by (induction sel arbitrary: m) (auto simp: resolvable_def split: option.splits)

subsection \<open>Substring search\<close>

lemma isPrefix_prefix: "isPrefix q s = prefix q s"
  by (induction q s rule: isPrefix.induct) auto

lemma str_includes_sublist: "str_includes s q = sublist q s"
  by (induction s) (auto simp: isPrefix_prefix sublist_Cons_right)

lemma eventMatches_spec:
  "eventMatches P (normalizeString P query) e = specMatches P query e"
  by (auto simp: eventMatches_def specMatches_def fieldContains_def descriptionContains_def
      truthy_def orElse_def str_includes_sublist split: option.splits list.splits)

subsection \<open>Sorting with a consistent comparator\<close>


lemma consistent_total: "consistentComparator cmp \<Longrightarrow> \<not> cmp a b \<le> 0 \<Longrightarrow> cmp b a \<le> 0"
  unfolding consistentComparator_def by (metis not_less order_less_imp_le)

lemma consistent_trans:
  "consistentComparator cmp \<Longrightarrow> cmp a b \<le> 0 \<Longrightarrow> cmp b c \<le> 0 \<Longrightarrow> cmp a c \<le> 0"
  unfolding consistentComparator_def by blast

lemma mset_insertBy: "mset (insertBy cmp x xs) = add_mset x (mset xs)"
  by (induction xs) auto

lemma mset_array_sort: "mset (array_sort cmp xs) = mset xs"
  by (induction xs) (auto simp: mset_insertBy)

lemma set_insertBy: "set (insertBy cmp x xs) = insert x (set xs)"
  by (induction xs) auto

lemma sorted_insertBy:
  assumes "consistentComparator cmp" and "sorted_wrt (\<lambda>a b. cmp a b \<le> 0) xs"
  shows "sorted_wrt (\<lambda>a b. cmp a b \<le> 0) (insertBy cmp x xs)"
  using assms(2)
proof (induction xs)
  case Nil
  then show ?case by simp
next
  case (Cons y ys)
  show ?case
  proof (cases "cmp x y \<le> 0")
    case True
    have "cmp x z \<le> 0" if "z \<in> set ys" for z
      using that Cons.prems True consistent_trans[OF assms(1), of x y z] by auto
    with True Cons.prems show ?thesis by auto
  next
    case False
    then have "cmp y x \<le> 0"
      by (rule consistent_total[OF assms(1)])
    with False Cons show ?thesis
      by (auto simp: set_insertBy)
  qed
qed

lemma sorted_array_sort:
  "consistentComparator cmp \<Longrightarrow> sorted_wrt (\<lambda>a b. cmp a b \<le> 0) (array_sort cmp xs)"
  by (induction xs) (auto simp: sorted_insertBy)




lemma calendarCompare_le:
  "calendarCompare P a b \<le> 0 \<longleftrightarrow>
     (cal_primary a \<and> \<not> cal_primary b) \<or>
     (cal_primary a = cal_primary b \<and> localeCompare P (displayName a) (displayName b) \<le> 0)"
  by (auto simp: calendarCompare_def)

lemma consistent_calendarCompare:
  assumes "consistentComparator (localeCompare P)"
  shows "consistentComparator (calendarCompare P)"
  unfolding consistentComparator_def
proof (intro conjI allI impI)
  fix a b
  show "(calendarCompare P a b < 0) = (0 < calendarCompare P b a)"
    using assms unfolding consistentComparator_def calendarCompare_def by auto
next
  fix a b c
  assume "calendarCompare P a b \<le> 0" "calendarCompare P b c \<le> 0"
  then show "calendarCompare P a c \<le> 0"
    unfolding calendarCompare_le
    using consistent_trans[OF assms, of "displayName a" "displayName b" "displayName c"]
    by auto
qed

lemma compareCodeUnits_sign: "(compareCodeUnits a b < 0) = (0 < compareCodeUnits b a)"
  by (induction a b rule: compareCodeUnits.induct) auto

lemma compareCodeUnits_trans:
  "compareCodeUnits a b \<le> 0 \<Longrightarrow> compareCodeUnits b c \<le> 0 \<Longrightarrow> compareCodeUnits a c \<le> 0"
proof (induction a b arbitrary: c rule: compareCodeUnits.induct)
  case 1
  then show ?case by simp
next
  case (2 d t)
  then show ?case by (cases c) auto
next
  case (3 c' s)
  then show ?case by simp
next
  case (4 x s y t)
  show ?case
  proof (cases c)
    case Nil
    with 4 show ?thesis by (auto split: if_splits)
  next
    case (Cons z u)
    with 4 show ?thesis by (auto split: if_splits)
  qed
qed

lemma consistent_compareCodeUnits: "consistentComparator compareCodeUnits"
  unfolding consistentComparator_def
  using compareCodeUnits_sign compareCodeUnits_trans by blast


lemma loadCalendars_calendars:
  "calendars (loadCalendars P (Inr fetched) st) = array_sort (calendarCompare P) fetched"
  by (simp add: loadCalendars_def Let_def split: option.splits list.splits)


section \<open>The claims\<close>


text \<open>
  C7. With the empty search text the filter returns the event list itself: the same
  events in the same order.
\<close>

theorem filter_empty_query_identity: "filterEvents P evs [] = evs"
  by (simp add: filterEvents_def)

text \<open>
  C8. Changing the search text leaves the selection exactly as it was, whatever the new
  text hides.
\<close>

theorem search_change_keeps_selection:
  "selectedIds (handleSearchChange query st) = selectedIds st"
  by (simp add: handleSearchChange_def)

text \<open>
  C1, as amended. A change of the time window leaves the selection exactly as it was:
  \<^verbatim>\<open>handleDateRangeChange\<close> sets the two bounds only, and the reload that the change
  triggers rebuilds the event list without touching the selection.
\<close>

theorem time_window_change_keeps_selection:
  "selectedIds (handleDateRangeChange newTimeMin newTimeMax st) = selectedIds st \<and>
   selectedIds (fst (changeTimeWindow api P w newTimeMin newTimeMax st)) = selectedIds st"
  by (simp add: changeTimeWindow_def Let_def reloadEffect_selectedIds handleDateRangeChange_def)

text \<open>
  C1 as stated fails: with the event \<open>x\<close> selected, moving the window to July leaves
  \<open>x\<close> selected, after the handler and after the reload.
\<close>

theorem time_window_change_counterexample:
  "selectedIds (handleDateRangeChange (js ''2025-07-01'') None
      (dashboard [lunch, dinner] [''x''] [])) = [js ''x''] \<and>
   selectedIds (fst (changeTimeWindow testApi latin1Platform
      \<lparr>stored = [lunch, dinner], protected = [], callsLeft = 5\<rparr>
      (js ''2025-07-01'') None (dashboard [lunch, dinner] [''x''] []))) = [js ''x'']"
  by code_simp




text \<open>
  C3. If a \<^verbatim>\<open>deleteEvents\<close> call of a deletion raised an authentication error, that call
  is the last one made: the calls made are the batches up to and including it, no later
  batch is dispatched, and the selection after the deletion is the selection before it.
\<close>

theorem auth_failure_aborts_delete:
  assumes run: "handleDelete api P w st = (st', w', calls)"
    and raised: "(calendarId, eventIds, Inl (AuthError code)) \<in> set calls"
  shows "last calls = (calendarId, eventIds, Inl (AuthError code)) \<and>
         map callBatch calls =
           take (length calls) (groupByCalendar (events st) (selectedIds st) []) \<and>
         selectedIds st' = selectedIds st"
proof -
  let ?batches = "groupByCalendar (events st) (selectedIds st) []"
  obtain outcome w1 calls1 where loop: "deleteLoop api w ?batches 0 0 = (outcome, w1, calls1)"
    by (cases "deleteLoop api w ?batches 0 0") auto
  show ?thesis
  proof (cases outcome)
    case (Inr totals)
    obtain S F where "totals = (S, F)" by (cases totals)
    with loop Inr have ok: "deleteLoop api w ?batches 0 0 = (Inr (S, F), w1, calls1)"
      by simp
    from handleDelete_returned[OF ok, of P] run have "calls = calls1" by simp
    with deleteLoop_returned[OF ok] have "list_all callReturned calls" by simp
    with raised have False
      by (auto simp: list_all_iff callReturned_def)
    then show ?thesis ..
  next
    case (Inl error)
    with loop have threw: "deleteLoop api w ?batches 0 0 = (Inl error, w1, calls1)"
      by simp
    from handleDelete_threw[OF threw, of P] run
    have calls: "calls = calls1" and sel: "selectedIds st' = selectedIds st"
      by simp_all
    from deleteLoop_threw[OF threw] calls
    have ne: "calls \<noteq> []"
      and returned: "list_all callReturned (butlast calls)"
      and prefix: "map callBatch calls = take (length calls) ?batches"
      by simp_all
    have "(calendarId, eventIds, Inl (AuthError code)) \<notin> set (butlast calls)"
      using returned by (auto simp: list_all_iff callReturned_def)
    moreover have "set calls = insert (last calls) (set (butlast calls))"
      using ne by (metis append_butlast_last_id list.simps(15) rotate1.simps(2) set_rotate1)
    ultimately have "last calls = (calendarId, eventIds, Inl (AuthError code))"
      using raised by auto
    with prefix sel show ?thesis by simp
  qed
qed

text \<open>
  An instance: three batches are planned (work, home, club); the server serves one call
  and rejects the second, so the batch for the club calendar is never sent and the four
  selected ids stay selected.
\<close>

theorem auth_failure_aborts_delete_witness:
  "(js ''home'', [js ''y''], Inl (AuthError TOKEN_EXPIRED))
     \<in> set (snd (snd (handleDelete testApi latin1Platform srvExpiring stThree))) \<and>
   groupByCalendar (events stThree) (selectedIds stThree) [] =
     [(js ''work'', [js ''x'']), (js ''home'', [js ''y'']), (js ''club'', [js ''t''])] \<and>
   map callBatch (snd (snd (handleDelete testApi latin1Platform srvExpiring stThree))) =
     [(js ''work'', [js ''x'']), (js ''home'', [js ''y''])] \<and>
   last (snd (snd (handleDelete testApi latin1Platform srvExpiring stThree))) =
     (js ''home'', [js ''y''], Inl (AuthError TOKEN_EXPIRED)) \<and>
   selectedIds (fst (handleDelete testApi latin1Platform srvExpiring stThree)) =
     selectedIds stThree"
proof -
  let ?run = "handleDelete testApi latin1Platform srvExpiring stThree"
  have run: "?run = (fst ?run, fst (snd ?run), snd (snd ?run))"
    by simp
  have raised: "(js ''home'', [js ''y''], Inl (AuthError TOKEN_EXPIRED)) \<in> set (snd (snd ?run))"
    by code_simp
  have planned: "groupByCalendar (events stThree) (selectedIds stThree) [] =
     [(js ''work'', [js ''x'']), (js ''home'', [js ''y'']), (js ''club'', [js ''t''])]"
    by code_simp
  have sent: "map callBatch (snd (snd ?run)) =
     [(js ''work'', [js ''x'']), (js ''home'', [js ''y''])]"
    by code_simp
  from auth_failure_aborts_delete[OF run raised] raised planned sent
  show ?thesis by simp
qed

text \<open>
  C9. When every \<^verbatim>\<open>deleteEvents\<close> call of a deletion has returned, with totals \<open>S\<close> and \<open>F\<close>:
  every planned batch was sent, \<open>S\<close> and \<open>F\<close> are the sums of the counts that the calls
  returned, the report shows them (as a failure report exactly when \<open>F > 0\<close>), and the
  handler ends by reloading the events from a state whose selection is empty; the
  selection is empty afterwards, whatever \<open>F\<close> is.
\<close>

theorem delete_completion:
  assumes loop: "deleteLoop api w (groupByCalendar (events st) (selectedIds st) []) 0 0
                   = (Inr (S, F), w1, calls)"
  shows "map callBatch calls = groupByCalendar (events st) (selectedIds st) [] \<and>
         S = sum_list (map callSucceeded calls) \<and>
         F = sum_list (map callFailed calls) \<and>
         toast (afterDeletes st S F) =
           Some (if F > 0 then DeletePartialError S F else DeleteSuccess S) \<and>
         handleDelete api P w st =
           ((fst (loadEvents api P w1 (afterDeletes st S F)))\<lparr>deleting := False\<rparr>,
            snd (loadEvents api P w1 (afterDeletes st S F)), calls) \<and>
         selectedIds (fst (handleDelete api P w st)) = []"
proof -
  note run = handleDelete_returned[OF loop, of P]
  have "selectedIds (fst (handleDelete api P w st)) = selectedIds (afterDeletes st S F)"
    by (simp add: run loadEvents_selectedIds)
  then have "selectedIds (fst (handleDelete api P w st)) = []"
    by (simp add: afterDeletes_def)
  moreover have "toast (afterDeletes st S F) =
           Some (if F > 0 then DeletePartialError S F else DeleteSuccess S)"
    by (simp add: afterDeletes_def)
  ultimately show ?thesis
    using deleteLoop_returned[OF loop] run by simp
qed

text \<open>
  An instance: \<open>x\<close> and \<open>z\<close> belong to the work calendar, \<open>y\<close> to the home calendar, and the
  server refuses to delete \<open>z\<close>. Two deletions succeed and one fails; afterwards the
  selection is empty and the reloaded list holds \<open>z\<close> alone.
\<close>

theorem delete_completion_witness:
  "deleteLoop testApi srvPartial
     (groupByCalendar (events stPartial) (selectedIds stPartial) []) 0 0 =
     (Inr (2, 1), \<lparr>stored = [review], protected = [js ''z''], callsLeft = 8\<rparr>,
      [(js ''work'', [js ''x'', js ''z''], Inr \<lparr>succeeded = 1, failed = 1\<rparr>),
       (js ''home'', [js ''y''], Inr \<lparr>succeeded = 1, failed = 0\<rparr>)]) \<and>
   selectedIds (fst (handleDelete testApi latin1Platform srvPartial stPartial)) = [] \<and>
   map ev_id (events (fst (handleDelete testApi latin1Platform srvPartial stPartial)))
     = [js ''z'']"
proof -
  have loop: "deleteLoop testApi srvPartial
     (groupByCalendar (events stPartial) (selectedIds stPartial) []) 0 0 =
     (Inr (2, 1), \<lparr>stored = [review], protected = [js ''z''], callsLeft = 8\<rparr>,
      [(js ''work'', [js ''x'', js ''z''], Inr \<lparr>succeeded = 1, failed = 1\<rparr>),
       (js ''home'', [js ''y''], Inr \<lparr>succeeded = 1, failed = 0\<rparr>)])"
    by code_simp
  have cleared: "selectedIds (fst (handleDelete testApi latin1Platform srvPartial stPartial)) = []"
    using delete_completion[OF loop, of latin1Platform] by blast
  have reloaded:
    "map ev_id (events (fst (handleDelete testApi latin1Platform srvPartial stPartial)))
       = [js ''z'']"
    by code_simp
  from loop cleared reloaded show ?thesis by simp
qed

text \<open>
  C6. The grouping step of a deletion puts every selected id that some event of the list
  bears into the batch of the calendar of that event (the first one that bears it), in
  exactly one batch; batches are non-empty, one for each calendar. A selected id that no
  event bears is in no batch, and the batches, the calls made and the succeeded and failed
  totals are those of the selection without such ids.
\<close>

theorem partition_by_owning_calendar:
  "list_all (batchOwned (events st)) (groupByCalendar (events st) (selectedIds st) []) \<and>
   distinct (map fst (groupByCalendar (events st) (selectedIds st) [])) \<and>
   mset (concat (map snd (groupByCalendar (events st) (selectedIds st) [])))
     = mset (filter (resolvable (events st)) (selectedIds st)) \<and>
   (\<forall>i \<in> set (selectedIds st). \<not> resolvable (events st) i \<longrightarrow>
      i \<notin> set (concat (map snd (groupByCalendar (events st) (selectedIds st) [])))) \<and>
   groupByCalendar (events st) (selectedIds st) []
     = groupByCalendar (events st) (filter (resolvable (events st)) (selectedIds st)) [] \<and>
   deleteLoop api w (groupByCalendar (events st) (selectedIds st) []) 0 0
     = deleteLoop api w
         (groupByCalendar (events st) (filter (resolvable (events st)) (selectedIds st)) []) 0 0"
proof -
  let ?B = "groupByCalendar (events st) (selectedIds st) []"
  have owned: "list_all (batchOwned (events st)) ?B"
    by (rule groupByCalendar_owned) simp
  have keys: "distinct (map fst ?B)"
    by (rule groupByCalendar_keys) simp
  have ids: "mset (concat (map snd ?B)) = mset (filter (resolvable (events st)) (selectedIds st))"
    by (simp add: groupByCalendar_mset)
  have "set (concat (map snd ?B)) = set (filter (resolvable (events st)) (selectedIds st))"
    using ids by (metis set_mset_mset)
  then have dropped: "\<forall>i \<in> set (selectedIds st). \<not> resolvable (events st) i \<longrightarrow>
      i \<notin> set (concat (map snd ?B))"
    by simp
  have same: "?B = groupByCalendar (events st)
                    (filter (resolvable (events st)) (selectedIds st)) []"
    by (rule groupByCalendar_drops_unresolvable)
  then have "deleteLoop api w ?B 0 0 = deleteLoop api w
         (groupByCalendar (events st) (filter (resolvable (events st)) (selectedIds st)) []) 0 0"
    by simp
  with owned keys ids dropped same show ?thesis by blast
qed

text \<open>
  An instance: the id \<open>gone\<close> is selected but no listed event bears it; the three batches
  hold the three other ids.
\<close>

theorem partition_by_owning_calendar_witness:
  "js ''gone'' \<in> set (selectedIds stThree) \<and> \<not> resolvable (events stThree) (js ''gone'') \<and>
   js ''gone'' \<notin> set (concat (map snd (groupByCalendar (events stThree) (selectedIds stThree) []))) \<and>
   groupByCalendar (events stThree) (selectedIds stThree) [] =
     [(js ''work'', [js ''x'']), (js ''home'', [js ''y'']), (js ''club'', [js ''t''])]"
proof -
  let ?B = "groupByCalendar (events stThree) (selectedIds stThree) []"
  have selected: "js ''gone'' \<in> set (selectedIds stThree)"
    by code_simp
  have stale: "\<not> resolvable (events stThree) (js ''gone'')"
    by code_simp
  have batches: "?B =
     [(js ''work'', [js ''x'']), (js ''home'', [js ''y'']), (js ''club'', [js ''t''])]"
    by code_simp
  from partition_by_owning_calendar[where st = stThree and api = testApi and w = srvExpiring]
  have "\<forall>i \<in> set (selectedIds stThree). \<not> resolvable (events stThree) i \<longrightarrow>
          i \<notin> set (concat (map snd ?B))"
    by blast
  with selected stale have "js ''gone'' \<notin> set (concat (map snd ?B))"
    by blast
  with selected stale batches show ?thesis by blast
qed

text \<open>
  C4, as amended. For every event list and every non-empty query, the filter keeps exactly
  the events of which a non-empty title, a non-empty location, or the markup-stripped
  rendering of a non-empty description contains the normalized query as a contiguous
  sublist, the query and the field being normalized by the same function; and an event
  titled Cesar, with an acute accent on the e, is kept for the query \<^verbatim>\<open>cesar\<close>.
\<close>

theorem filter_keeps_matching_events:
  "(query \<noteq> [] \<longrightarrow> filterEvents P evs query = filter (specMatches P query) evs) \<and>
   filterEvents latin1Platform [cesarEvent] (js ''cesar'') = [cesarEvent]"
proof -
  have "filterEvents P evs query = filter (specMatches P query) evs" if "query \<noteq> []"
    using that by (simp add: filterEvents_def eventMatches_spec cong: filter_cong)
  moreover have "filterEvents latin1Platform [cesarEvent] (js ''cesar'') = [cesarEvent]"
    by code_simp
  ultimately show ?thesis by blast
qed

text \<open>An instance: the query \<^verbatim>\<open>DIN\<close> keeps the dinner and drops the lunch.\<close>

theorem filter_keeps_matching_events_witness:
  "js ''DIN'' \<noteq> [] \<and>
   filterEvents latin1Platform [lunch, dinner] (js ''DIN'')
     = filter (specMatches latin1Platform (js ''DIN'')) [lunch, dinner] \<and>
   filterEvents latin1Platform [lunch, dinner] (js ''DIN'') = [dinner]"
proof -
  have nonempty: "js ''DIN'' \<noteq> []"
    by code_simp
  have kept: "filterEvents latin1Platform [lunch, dinner] (js ''DIN'') = [dinner]"
    by code_simp
  from filter_keeps_matching_events[of "js ''DIN''" latin1Platform "[lunch, dinner]"] nonempty
  have "filterEvents latin1Platform [lunch, dinner] (js ''DIN'')
          = filter (specMatches latin1Platform (js ''DIN'')) [lunch, dinner]"
    by blast
  with nonempty kept show ?thesis by blast
qed

text \<open>
  C4 as stated fails: the query that is the single combining mark U+0301 is not empty, its
  normalized form is, and the empty title of the event contains it; the filter drops the
  event, because it tests the title for truthiness first.
\<close>

theorem filter_counterexample:
  "[0x301] \<noteq> ([] :: jsstring) \<and> ev_summary blankEvent = Some [] \<and>
   claimedMatches latin1Platform [0x301] blankEvent \<and>
   filterEvents latin1Platform [blankEvent] [0x301] = []"
  by code_simp




text \<open>
  C10. After the calendars are loaded, the list is the fetched calendars, arranged so that
  of any two of them the earlier one is primary if the later one is, and, when both or
  neither are primary, the display name of the earlier one does not compare after that of
  the later one under \<^verbatim>\<open>localeCompare\<close> (taken to be a consistent comparator). The display
  name is the overriding name if there is a non-empty one, else the provider's name if
  there is a non-empty one, else the empty string.
\<close>

theorem calendars_sorted_primary_first:
  "(consistentComparator (localeCompare P) \<longrightarrow>
      mset (calendars (loadCalendars P (Inr fetched) st)) = mset fetched \<and>
      sorted_wrt
        (\<lambda>a b. (cal_primary b \<longrightarrow> cal_primary a) \<and>
               (cal_primary a = cal_primary b \<longrightarrow>
                  localeCompare P (displayName a) (displayName b) \<le> 0))
        (calendars (loadCalendars P (Inr fetched) st))) \<and>
   displayName c =
     (case cal_summaryOverride c of
        Some (x # xs) \<Rightarrow> x # xs
      | _ \<Rightarrow> (case cal_summary c of Some (y # ys) \<Rightarrow> y # ys | _ \<Rightarrow> []))"
proof -
  let ?cs = "calendars (loadCalendars P (Inr fetched) st)"
  have general: "mset ?cs = mset fetched \<and>
      sorted_wrt
        (\<lambda>a b. (cal_primary b \<longrightarrow> cal_primary a) \<and>
               (cal_primary a = cal_primary b \<longrightarrow>
                  localeCompare P (displayName a) (displayName b) \<le> 0)) ?cs"
    if cons: "consistentComparator (localeCompare P)"
  proof -
    have "sorted_wrt (\<lambda>a b. calendarCompare P a b \<le> 0) ?cs"
      unfolding loadCalendars_calendars
      by (rule sorted_array_sort) (rule consistent_calendarCompare[OF cons])
    then have "sorted_wrt
        (\<lambda>a b. (cal_primary b \<longrightarrow> cal_primary a) \<and>
               (cal_primary a = cal_primary b \<longrightarrow>
                  localeCompare P (displayName a) (displayName b) \<le> 0)) ?cs"
      by (rule sorted_wrt_mono_rel[rotated]) (auto simp: calendarCompare_le)
    then show ?thesis
      by (simp add: loadCalendars_calendars mset_array_sort)
  qed
  have "displayName c =
     (case cal_summaryOverride c of
        Some (x # xs) \<Rightarrow> x # xs
      | _ \<Rightarrow> (case cal_summary c of Some (y # ys) \<Rightarrow> y # ys | _ \<Rightarrow> []))"
    by (simp add: displayName_def orElse_def split: option.splits list.splits)
  with general show ?thesis by blast
qed

text \<open>
  An instance: the primary work calendar comes first; then the calendar without a name,
  the calendar renamed to \<^verbatim>\<open>club\<close> (the provider calls it \<^verbatim>\<open>zumba\<close>), and the home
  calendar.
\<close>

theorem calendars_sorted_primary_first_witness:
  "consistentComparator (localeCompare latin1Platform) \<and>
   map cal_id (calendars (loadCalendars latin1Platform (Inr fetchedCalendars)
                            (dashboard [] [] [])))
     = [js ''work'', js ''n'', js ''club'', js ''home''] \<and>
   map displayName (calendars (loadCalendars latin1Platform (Inr fetchedCalendars)
                                 (dashboard [] [] [])))
     = [js ''work'', [], js ''club'', js ''home''] \<and>
   mset (calendars (loadCalendars latin1Platform (Inr fetchedCalendars) (dashboard [] [] [])))
     = mset fetchedCalendars"
proof -
  let ?cs = "calendars (loadCalendars latin1Platform (Inr fetchedCalendars) (dashboard [] [] []))"
  have cons: "consistentComparator (localeCompare latin1Platform)"
    by (simp add: latin1Platform_def consistent_compareCodeUnits)
  have ids: "map cal_id ?cs = [js ''work'', js ''n'', js ''club'', js ''home'']"
    by code_simp
  have names: "map displayName ?cs = [js ''work'', [], js ''club'', js ''home'']"
    by code_simp
  from calendars_sorted_primary_first[where P = latin1Platform and fetched = fetchedCalendars
      and st = "dashboard [] [] []"] cons
  have "mset ?cs = mset fetchedCalendars"
    by blast
  with cons ids names show ?thesis by blast
qed

end
